theory Spec2Isabelle
  imports Main
begin

section \<open>The agent dashboard script (static/agent_dashboard.js)\<close>

text \<open>
  The script keeps two module-level variables, \<open>activeMeetings\<close> (a \<open>Map\<close>) and
  \<open>websocketConnection\<close>, and reacts to WebSocket events, timers and REST responses.
  The model is a record of everything the script reads and writes, and one HOL function
  per function of the script, with the same name, taking the state and returning the
  new one. A function that can throw returns a \<open>completion\<close>: the state reached, and
  the error when the function left by an exception.
\<close>

subsection \<open>JavaScript values\<close>

text \<open>
  What \<open>JSON.parse\<close> and \<open>response.json()\<close> return, and \<open>undefined\<close>. Numbers are
  the integers. An array or an object carries its identity, the reference by which
  \<open>===\<close> and \<open>Map\<close> compare it: two values that were parsed separately have
  different references, also when their content is the same, and the script never
  changes a parsed value, so a reference stands for one content. With that, equality
  of values is \<open>===\<close> and the key comparison of \<open>Map\<close>: by value on primitives, by
  reference on arrays and objects.
\<close>

type_synonym reference = nat

datatype js_value =
    JUndefined
  | JNull
  | JBool bool
  | JNum int
  | JStr string
  | JArr reference "js_value list"
  | JObj reference "(string \<times> js_value) list"

datatype js_error = TypeError | SyntaxError

datatype 'a completion = Normal 'a | Throw js_error 'a

fun state_of :: "'a completion \<Rightarrow> 'a" where
  "state_of (Normal s) = s"
| "state_of (Throw e s) = s"

fun returns :: "'a completion \<Rightarrow> bool" where
  "returns (Normal s) = True"
| "returns (Throw e s) = False"

text \<open>
  \<open>v.name\<close> for the property names the script reads (\<open>type\<close>, \<open>meeting\<close>,
  \<open>meeting_id\<close>, \<open>title\<close>, \<open>text\<close>, \<open>data\<close>, \<open>meetings\<close>, \<open>platform\<close>,
  \<open>start_time\<close>, \<open>duration_minutes\<close>, \<open>status\<close>, \<open>length\<close>): reading a property of
  \<open>undefined\<close> or \<open>null\<close> throws a TypeError, an object yields its own property or
  \<open>undefined\<close>, strings and arrays have a \<open>length\<close>, and every other read is
  \<open>undefined\<close>.
\<close>

fun get_prop :: "js_value \<Rightarrow> string \<Rightarrow> js_error + js_value" where
  "get_prop JUndefined name = Inl TypeError"
| "get_prop JNull name = Inl TypeError"
| "get_prop (JObj r props) name =
     Inr (case map_of props name of None \<Rightarrow> JUndefined | Some v \<Rightarrow> v)"
| "get_prop (JArr r xs) name =
     Inr (if name = ''length'' then JNum (int (length xs)) else JUndefined)"
| "get_prop (JStr s) name =
     Inr (if name = ''length'' then JNum (int (length s)) else JUndefined)"
| "get_prop (JBool b) name = Inr JUndefined"
| "get_prop (JNum n) name = Inr JUndefined"

text \<open>\<open>!v\<close> is true on the falsy values.\<close>

fun falsy :: "js_value \<Rightarrow> bool" where
  "falsy JUndefined = True"
| "falsy JNull = True"
| "falsy (JBool b) = (\<not> b)"
| "falsy (JNum n) = (n = 0)"
| "falsy (JStr s) = (s = [])"
| "falsy (JArr r xs) = False"
| "falsy (JObj r props) = False"

text \<open>The primitive values: everything but arrays and objects.\<close>

fun primitive :: "js_value \<Rightarrow> bool" where
  "primitive (JArr r xs) = False"
| "primitive (JObj r props) = False"
| "primitive v = True"

text \<open>
  The conversion to a string that a template literal \<open>${v}\<close>, a property key
  \<open>o[v]\<close> and \<open>new Date(v)\<close> apply to \<open>v\<close>. It returns for every primitive. On an
  object it calls \<open>toString\<close>, which is the callable one of \<open>Object.prototype\<close> unless
  the object has a property \<open>toString\<close> of its own; a parsed value is never callable,
  \<open>valueOf\<close> is then no help either (the inherited one returns the object, an own
  one is not callable), and the conversion throws a TypeError. On an array it joins
  the conversions of the elements, so it throws when one of them does.
\<close>

fun convertible :: "js_value \<Rightarrow> bool" where
  "convertible (JObj r props) = (map_of props ''toString'' = None)"
| "convertible (JArr r xs) = list_all convertible xs"
| "convertible v = True"

text \<open>An interpolated value: the value itself, unless its conversion throws.\<close>

definition interpolate :: "js_value \<Rightarrow> js_error + js_value" where
  "interpolate v = (if convertible v then Inr v else Inl TypeError)"

definition prop_string :: "js_value \<Rightarrow> string \<Rightarrow> js_error + js_value" where
  "prop_string v name =
     (case get_prop v name of Inl e \<Rightarrow> Inl e | Inr x \<Rightarrow> interpolate x)"

text \<open>\<open>xs.map(f)\<close> and \<open>forEach\<close> with a callback that can throw: the first throw ends it.\<close>

fun map_throwing :: "('a \<Rightarrow> js_error + 'b) \<Rightarrow> 'a list \<Rightarrow> js_error + 'b list" where
  "map_throwing f [] = Inr []"
| "map_throwing f (x # xs) =
     (case f x of
        Inl e \<Rightarrow> Inl e
      | Inr y \<Rightarrow> (case map_throwing f xs of Inl e \<Rightarrow> Inl e | Inr ys \<Rightarrow> Inr (y # ys)))"

subsection \<open>The Map behind \<open>activeMeetings\<close>\<close>

text \<open>
  A JavaScript \<open>Map\<close> iterates in insertion order, and \<open>forEach\<close> renders the cards in
  that order, so the map is a list of entries. \<open>set\<close> overwrites the value of a key
  that is present, in place, and appends a new key; \<open>delete\<close> removes the key. Keys
  are compared as values are: an array or object key is found by its reference only.
\<close>

fun js_map_set :: "'k \<Rightarrow> 'v \<Rightarrow> ('k \<times> 'v) list \<Rightarrow> ('k \<times> 'v) list" where
  "js_map_set k v [] = [(k, v)]"
| "js_map_set k v (e # es) =
     (if fst e = k then (k, v) # es else e # js_map_set k v es)"

fun js_map_delete :: "'k \<Rightarrow> ('k \<times> 'v) list \<Rightarrow> ('k \<times> 'v) list" where
  "js_map_delete k [] = []"
| "js_map_delete k (e # es) =
     (if fst e = k then js_map_delete k es else e # js_map_delete k es)"

subsection \<open>The page and the state\<close>

text \<open>
  A template literal is kept as its parts, the literal text and the interpolated
  values, instead of the string they are joined to; the markup written to
  \<open>innerHTML\<close> is kept as the values interpolated into it.
  An entry of the feed is the \<open>div\<close> of class \<open>alert\<close> that \<open>addLiveUpdate\<close> creates.
  Its message is written into its \<open>innerHTML\<close> and parsed as markup there, so the entry
  can hold further elements of class \<open>alert\<close>: \<open>upd_alerts\<close> is how many it holds.
\<close>

datatype part = Lit string | Subst js_value

record update =
  upd_time :: int
  upd_type :: string
  upd_message :: "part list"
  upd_alerts :: nat

record card =
  card_id :: js_value
  card_title :: js_value
  card_platform :: js_value
  card_start_time :: js_value

datatype active_view = NoActiveMeetings | Cards "card list"

record row =
  row_title :: js_value
  row_platform :: js_value
  row_start_time :: "js_value option"
  row_duration_minutes :: "js_value option"
  row_status :: js_value
  row_meeting_id :: js_value

datatype history_view = NoHistory | Rows "row list"

datatype ready_state = CONNECTING | OPEN | CLOSING | CLOSED

datatype callback = ConnectWebSocket | Heartbeat

datatype console_entry =
    ConsoleLog string "js_value list"
  | ConsoleError string js_error

text \<open>
  \<open>sockets\<close> holds the ready state of every WebSocket the script has created, in
  creation order; \<open>websocketConnection\<close> is the index of the one the variable refers
  to, \<open>None\<close> for \<open>null\<close>. \<open>timeouts\<close> are the pending \<open>setTimeout\<close> registrations
  (the time each is due and its callback), \<open>intervals\<close> the \<open>setInterval\<close>
  registrations (the time of the next call, the period and the callback), \<open>clock\<close>
  is \<open>Date.now()\<close>, \<open>sent\<close> the frames handed to \<open>send\<close> (the socket, and the
  properties of the object given to \<open>JSON.stringify\<close>), \<open>fetches\<close> the URLs of the requests in flight.
  The page is the dashboard template: the elements \<open>live-updates\<close>, \<open>active-meetings\<close>,
  \<open>meeting-history\<close>, \<open>google-status\<close> and \<open>zoom-status\<close> exist, \<open>live-updates\<close> holds
  the alerts that \<open>addLiveUpdate\<close> puts there, and their content is part of the state.
  \<open>alert_elements\<close> is the browser's HTML parser as far as the script depends on it:
  the number of elements of class \<open>alert\<close> in the markup that a message parses to.
\<close>

record dashboard =
  activeMeetings :: "(js_value \<times> js_value) list"
  websocketConnection :: "nat option"
  sockets :: "ready_state list"
  timeouts :: "(int \<times> callback) list"
  intervals :: "(int \<times> int \<times> callback) list"
  clock :: int
  sent :: "(nat \<times> (string \<times> js_value) list) list"
  console :: "console_entry list"
  fetches :: "string list"
  live_updates :: "update list"
  active_meetings :: active_view
  meeting_history :: history_view
  google_status :: string
  zoom_status :: string
  alert_elements :: "part list \<Rightarrow> nat"

subsection \<open>The live-updates feed\<close>

text \<open>
  \<open>addLiveUpdate\<close> prepends the new entry. \<open>querySelectorAll('.alert')\<close> then finds
  every element of class \<open>alert\<close> under the container, in document order: each entry,
  followed by the elements of that class inside it. When there are more than 10, the
  last of them is removed: the last entry when it holds no such element, and else the
  last such element inside the last entry (which holds none itself, being the last).
\<close>

definition alert_count :: "update list \<Rightarrow> nat" where
  "alert_count updates = sum_list (map (\<lambda>u. Suc (upd_alerts u)) updates)"

fun remove_last_alert :: "update list \<Rightarrow> update list" where
  "remove_last_alert [] = []"
| "remove_last_alert [u] =
     (if upd_alerts u = 0 then [] else [u\<lparr>upd_alerts := upd_alerts u - 1\<rparr>])"
| "remove_last_alert (u # v # us) = u # remove_last_alert (v # us)"

definition addLiveUpdate :: "part list \<Rightarrow> string \<Rightarrow> dashboard \<Rightarrow> dashboard" where
  "addLiveUpdate message type st =
     (let updates = \<lparr>upd_time = clock st, upd_type = type, upd_message = message,
                       upd_alerts = alert_elements st message\<rparr>
                      # live_updates st
      in st\<lparr>live_updates :=
              (if alert_count updates > 10 then remove_last_alert updates else updates)\<rparr>)"

subsection \<open>The active meetings\<close>

text \<open>
  The callback of \<open>activeMeetings.forEach\<close>: the card of one entry. The template
  converts the key, the title and the platform to strings and gives the start time to
  \<open>new Date\<close>.
\<close>

definition render_card :: "js_value \<times> js_value \<Rightarrow> js_error + card" where
  "render_card entry =
     (case entry of (meetingId, meeting) \<Rightarrow>
      case interpolate meetingId of Inl e \<Rightarrow> Inl e | Inr key \<Rightarrow>
      case prop_string meeting ''title'' of Inl e \<Rightarrow> Inl e | Inr title \<Rightarrow>
      case prop_string meeting ''platform'' of Inl e \<Rightarrow> Inl e | Inr platform \<Rightarrow>
      case prop_string meeting ''start_time'' of Inl e \<Rightarrow> Inl e | Inr start_time \<Rightarrow>
        Inr \<lparr>card_id = key, card_title = title, card_platform = platform,
             card_start_time = start_time\<rparr>)"

definition render_cards :: "(js_value \<times> js_value) list \<Rightarrow> js_error + card list" where
  "render_cards es = map_throwing render_card es"

definition updateActiveMeetingsDisplay :: "dashboard \<Rightarrow> dashboard completion" where
  "updateActiveMeetingsDisplay st =
     (if length (activeMeetings st) = 0
      then Normal (st\<lparr>active_meetings := NoActiveMeetings\<rparr>)
      else case render_cards (activeMeetings st) of
             Inl e \<Rightarrow> Throw e st
           | Inr cs \<Rightarrow> Normal (st\<lparr>active_meetings := Cards cs\<rparr>))"

definition addActiveMeeting :: "js_value \<Rightarrow> dashboard \<Rightarrow> dashboard completion" where
  "addActiveMeeting meeting st =
     (case get_prop meeting ''meeting_id'' of
        Inl e \<Rightarrow> Throw e st
      | Inr meeting_id \<Rightarrow>
          updateActiveMeetingsDisplay
            (st\<lparr>activeMeetings := js_map_set meeting_id meeting (activeMeetings st)\<rparr>))"

definition removeActiveMeeting :: "js_value \<Rightarrow> dashboard \<Rightarrow> dashboard completion" where
  "removeActiveMeeting meetingId st =
     updateActiveMeetingsDisplay
       (st\<lparr>activeMeetings := js_map_delete meetingId (activeMeetings st)\<rparr>)"

subsection \<open>The meeting history\<close>

text \<open>
  The callback of \<open>meetings.map\<close>: the row of one meeting. The title, the platform,
  the status (as a key of the colour table, and as text) and the id are converted to
  strings; the date and the duration show \<open>N/A\<close> (\<open>None\<close>) when the field is falsy and
  are converted otherwise.
\<close>

definition shown_or_NA :: "js_value \<Rightarrow> js_error + js_value option" where
  "shown_or_NA v =
     (if falsy v then Inr None
      else case interpolate v of Inl e \<Rightarrow> Inl e | Inr x \<Rightarrow> Inr (Some x))"

definition render_row :: "js_value \<Rightarrow> js_error + row" where
  "render_row meeting =
     (case prop_string meeting ''title'' of Inl e \<Rightarrow> Inl e | Inr title \<Rightarrow>
      case prop_string meeting ''platform'' of Inl e \<Rightarrow> Inl e | Inr platform \<Rightarrow>
      case get_prop meeting ''start_time'' of Inl e \<Rightarrow> Inl e | Inr start_time \<Rightarrow>
      case shown_or_NA start_time of Inl e \<Rightarrow> Inl e | Inr shown_date \<Rightarrow>
      case get_prop meeting ''duration_minutes'' of Inl e \<Rightarrow> Inl e | Inr duration_minutes \<Rightarrow>
      case shown_or_NA duration_minutes of Inl e \<Rightarrow> Inl e | Inr shown_duration \<Rightarrow>
      case prop_string meeting ''status'' of Inl e \<Rightarrow> Inl e | Inr status \<Rightarrow>
      case prop_string meeting ''meeting_id'' of Inl e \<Rightarrow> Inl e | Inr meeting_id \<Rightarrow>
        Inr \<lparr>row_title = title, row_platform = platform, row_start_time = shown_date,
             row_duration_minutes = shown_duration, row_status = status,
             row_meeting_id = meeting_id\<rparr>)"

definition render_rows :: "js_value list \<Rightarrow> js_error + row list" where
  "render_rows ms = map_throwing render_row ms"

text \<open>
  \<open>meetings.map\<close> is a function on arrays only: calling it on any other value that
  passed the emptiness test throws a TypeError.
\<close>

definition updateMeetingHistory :: "js_value \<Rightarrow> dashboard \<Rightarrow> dashboard completion" where
  "updateMeetingHistory meetings st =
     (if falsy meetings then Normal (st\<lparr>meeting_history := NoHistory\<rparr>)
      else case get_prop meetings ''length'' of
        Inl e \<Rightarrow> Throw e st
      | Inr len \<Rightarrow>
          if len = JNum 0 then Normal (st\<lparr>meeting_history := NoHistory\<rparr>)
          else case meetings of
            JArr r ms \<Rightarrow>
              (case render_rows ms of
                 Inl e \<Rightarrow> Throw e st
               | Inr rs \<Rightarrow> Normal (st\<lparr>meeting_history := Rows rs\<rparr>))
          | _ \<Rightarrow> Throw TypeError st)"

text \<open>
  \<open>loadMeetingHistory\<close> is asynchronous: it issues the request and returns; when the
  response arrives it resumes inside its \<open>try\<close> block, which catches a failed
  request, a body that is not JSON and whatever \<open>updateMeetingHistory\<close> throws, and
  logs it.
\<close>

definition loadMeetingHistory :: "dashboard \<Rightarrow> dashboard" where
  "loadMeetingHistory st = st\<lparr>fetches := fetches st @ [''/api/agent/meetings'']\<rparr>"

definition loadMeetingHistory_resume :: "js_error + js_value \<Rightarrow> dashboard \<Rightarrow> dashboard" where
  "loadMeetingHistory_resume response st =
     (case response of
        Inl e \<Rightarrow> st\<lparr>console := console st @ [ConsoleError ''Error loading meeting history:'' e]\<rparr>
      | Inr meetings \<Rightarrow>
          (case updateMeetingHistory meetings st of
             Normal st' \<Rightarrow> st'
           | Throw e st' \<Rightarrow>
               st'\<lparr>console := console st' @ [ConsoleError ''Error loading meeting history:'' e]\<rparr>))"

definition checkPlatformConnections :: "dashboard \<Rightarrow> dashboard" where
  "checkPlatformConnections st =
     st\<lparr>google_status := ''Not Connected'', zoom_status := ''Not Connected''\<rparr>"

subsection \<open>The dispatcher\<close>

text \<open>
  \<open>switch (data.type)\<close> compares with \<open>===\<close>. \<open>data.text.substring(0, 50)\<close> is the
  first 50 characters of a string, and a TypeError on any other value. The title in
  the two meeting messages is converted to a string by its template literal.
\<close>

definition handleWebSocketMessage :: "js_value \<Rightarrow> dashboard \<Rightarrow> dashboard completion" where
  "handleWebSocketMessage data st =
     (case get_prop data ''type'' of
        Inl e \<Rightarrow> Throw e st
      | Inr type \<Rightarrow>
          if type = JStr ''meeting_started'' then
            (case get_prop data ''meeting'' of
               Inl e \<Rightarrow> Throw e st
             | Inr meeting \<Rightarrow>
                 (case addActiveMeeting meeting st of
                    Throw e st1 \<Rightarrow> Throw e st1
                  | Normal st1 \<Rightarrow>
                      (case prop_string meeting ''title'' of
                         Inl e \<Rightarrow> Throw e st1
                       | Inr title \<Rightarrow>
                           Normal (addLiveUpdate [Lit ''Meeting started: '', Subst title]
                                     ''info'' st1))))
          else if type = JStr ''meeting_ended'' then
            (case get_prop data ''meeting_id'' of
               Inl e \<Rightarrow> Throw e st
             | Inr meeting_id \<Rightarrow>
                 (case removeActiveMeeting meeting_id st of
                    Throw e st1 \<Rightarrow> Throw e st1
                  | Normal st1 \<Rightarrow>
                      (case get_prop data ''meeting'' of
                         Inl e \<Rightarrow> Throw e st1
                       | Inr meeting \<Rightarrow>
                           (case prop_string meeting ''title'' of
                              Inl e \<Rightarrow> Throw e st1
                            | Inr title \<Rightarrow>
                                Normal (loadMeetingHistory
                                  (addLiveUpdate [Lit ''Meeting ended: '', Subst title]
                                     ''info'' st1))))))
          else if type = JStr ''transcript_update'' then
            (case get_prop data ''text'' of
               Inl e \<Rightarrow> Throw e st
             | Inr text \<Rightarrow>
                 (case text of
                    JStr s \<Rightarrow>
                      Normal (addLiveUpdate
                        [Lit ''Live transcript: '', Subst (JStr (take 50 s)), Lit ''...'']
                        ''transcript'' st)
                  | _ \<Rightarrow> Throw TypeError st))
          else if type = JStr ''meetings_update'' then
            (case get_prop data ''data'' of
               Inl e \<Rightarrow> Throw e st
             | Inr d \<Rightarrow>
                 (case get_prop d ''meetings'' of
                    Inl e \<Rightarrow> Throw e st
                  | Inr meetings \<Rightarrow> updateMeetingHistory meetings st))
          else if type = JStr ''pong'' then Normal st
          else Normal (st\<lparr>console := console st @
                 [ConsoleLog ''Unknown WebSocket message type:'' [type]]\<rparr>))"

subsection \<open>The connection\<close>

text \<open>
  \<open>connectWebSocket\<close> creates a WebSocket, which starts in the state CONNECTING,
  stores it in \<open>websocketConnection\<close> and gives it the four handlers below. The
  handlers do not refer to their socket, so they are functions of the state alone.
  \<open>JSON_parse\<close> is the runtime's \<open>JSON.parse\<close>: the value of a payload, with the
  references of its arrays and objects, or the SyntaxError it throws. As one function
  of the payload it gives two payloads of the same text the same references; where the
  references of separately parsed values matter, in the registry, the properties are
  stated on the parsed values themselves.
\<close>

definition connectWebSocket :: "dashboard \<Rightarrow> dashboard" where
  "connectWebSocket st =
     st\<lparr>sockets := sockets st @ [CONNECTING],
        websocketConnection := Some (length (sockets st))\<rparr>"

definition onopen :: "dashboard \<Rightarrow> dashboard" where
  "onopen st =
     addLiveUpdate [Lit ''Connected to real-time updates''] ''success''
       (st\<lparr>console := console st @ [ConsoleLog ''Connected to dashboard WebSocket'' []]\<rparr>)"

definition onmessage ::
  "(string \<Rightarrow> js_error + js_value) \<Rightarrow> string \<Rightarrow> dashboard \<Rightarrow> dashboard completion" where
  "onmessage JSON_parse event_data st =
     (case JSON_parse event_data of
        Inl e \<Rightarrow> Throw e st
      | Inr data \<Rightarrow> handleWebSocketMessage data st)"

definition onclose :: "dashboard \<Rightarrow> dashboard" where
  "onclose st =
     (let st1 = addLiveUpdate [Lit ''Disconnected from real-time updates''] ''warning''
                  (st\<lparr>console := console st @ [ConsoleLog ''Dashboard WebSocket closed'' []]\<rparr>)
      in st1\<lparr>timeouts := timeouts st1 @ [(clock st1 + 3000, ConnectWebSocket)]\<rparr>)"

definition onerror :: "js_error \<Rightarrow> dashboard \<Rightarrow> dashboard" where
  "onerror error st =
     addLiveUpdate [Lit ''Connection error''] ''error''
       (st\<lparr>console := console st @ [ConsoleError ''Dashboard WebSocket error:'' error]\<rparr>)"

text \<open>The ready state of socket \<open>s\<close>, when the script has created it.\<close>

definition readyState :: "dashboard \<Rightarrow> nat \<Rightarrow> ready_state option" where
  "readyState st s = (if s < length (sockets st) then Some (sockets st ! s) else None)"

text \<open>The callback of \<open>setInterval\<close>, and the probe it sends.\<close>

definition ping :: "int \<Rightarrow> (string \<times> js_value) list" where
  "ping now = [(''type'', JStr ''ping''), (''timestamp'', JNum now)]"

definition heartbeat :: "dashboard \<Rightarrow> dashboard" where
  "heartbeat st =
     (case websocketConnection st of
        None \<Rightarrow> st
      | Some s \<Rightarrow>
          if readyState st s = Some OPEN
          then st\<lparr>sent := sent st @ [(s, ping (clock st))]\<rparr>
          else st)"

subsection \<open>Loading the page\<close>

text \<open>
  Running the script initialises the two variables and registers the heartbeat with
  \<open>setInterval\<close>; nothing else runs before the page's \<open>DOMContentLoaded\<close> event, whose
  handler loads the history, connects and sets the platform status. \<open>page\<close> gives the
  content of the page's elements and the time.
\<close>

definition run_script :: "dashboard \<Rightarrow> dashboard" where
  "run_script page =
     page\<lparr>activeMeetings := [], websocketConnection := None, sockets := [],
          timeouts := [], intervals := [(clock page + 30000, 30000, Heartbeat)],
          sent := [], console := [], fetches := []\<rparr>"

definition onDOMContentLoaded :: "dashboard \<Rightarrow> dashboard" where
  "onDOMContentLoaded st = checkPlatformConnections (connectWebSocket (loadMeetingHistory st))"

definition page_loaded :: "dashboard \<Rightarrow> dashboard" where
  "page_loaded page = onDOMContentLoaded (run_script page)"

subsection \<open>The event loop\<close>

text \<open>
  What the browser does to the script after the page has loaded, one event at a time:
  a socket opens (from CONNECTING), delivers a message (while OPEN), starts closing,
  reports an error or closes (once, from any state but CLOSED); a timeout or an
  interval that is due runs its callback, the timeout once and the interval again
  after its period; a history request is answered; time passes. A handler that throws
  ends its event with the state it had reached, and the loop goes on.
\<close>

datatype event =
    SocketOpen nat
  | SocketMessage nat string
  | SocketClosing nat
  | SocketError nat js_error
  | SocketClose nat
  | TimeoutDue nat
  | IntervalDue nat
  | HistoryResponse "js_error + js_value"
  | TimePasses nat

fun run_callback :: "callback \<Rightarrow> dashboard \<Rightarrow> dashboard" where
  "run_callback ConnectWebSocket st = connectWebSocket st"
| "run_callback Heartbeat st = heartbeat st"

fun enabled :: "event \<Rightarrow> dashboard \<Rightarrow> bool" where
  "enabled (SocketOpen s) st = (readyState st s = Some CONNECTING)"
| "enabled (SocketMessage s event_data) st = (readyState st s = Some OPEN)"
| "enabled (SocketClosing s) st = (readyState st s = Some OPEN)"
| "enabled (SocketError s error) st =
     (s < length (sockets st) \<and> readyState st s \<noteq> Some CLOSED)"
| "enabled (SocketClose s) st =
     (s < length (sockets st) \<and> readyState st s \<noteq> Some CLOSED)"
| "enabled (TimeoutDue i) st =
     (i < length (timeouts st) \<and> fst (timeouts st ! i) \<le> clock st)"
| "enabled (IntervalDue i) st =
     (i < length (intervals st) \<and> fst (intervals st ! i) \<le> clock st)"
| "enabled (HistoryResponse response) st = (fetches st \<noteq> [])"
| "enabled (TimePasses d) st = True"

fun fire ::
  "(string \<Rightarrow> js_error + js_value) \<Rightarrow> event \<Rightarrow> dashboard \<Rightarrow> dashboard" where
  "fire JSON_parse (SocketOpen s) st = onopen (st\<lparr>sockets := (sockets st)[s := OPEN]\<rparr>)"
| "fire JSON_parse (SocketMessage s event_data) st =
     state_of (onmessage JSON_parse event_data st)"
| "fire JSON_parse (SocketClosing s) st = st\<lparr>sockets := (sockets st)[s := CLOSING]\<rparr>"
| "fire JSON_parse (SocketError s error) st = onerror error st"
| "fire JSON_parse (SocketClose s) st = onclose (st\<lparr>sockets := (sockets st)[s := CLOSED]\<rparr>)"
| "fire JSON_parse (TimeoutDue i) st =
     run_callback (snd (timeouts st ! i))
       (st\<lparr>timeouts := take i (timeouts st) @ drop (Suc i) (timeouts st)\<rparr>)"
| "fire JSON_parse (IntervalDue i) st =
     (case intervals st ! i of (due, period, cb) \<Rightarrow>
        run_callback cb (st\<lparr>intervals := (intervals st)[i := (due + period, period, cb)]\<rparr>))"
| "fire JSON_parse (HistoryResponse response) st =
     loadMeetingHistory_resume response (st\<lparr>fetches := tl (fetches st)\<rparr>)"
| "fire JSON_parse (TimePasses d) st = st\<lparr>clock := clock st + int d\<rparr>"

text \<open>A run of the loop: \<open>None\<close> when an event of the list cannot happen where it stands.\<close>

fun run ::
  "(string \<Rightarrow> js_error + js_value) \<Rightarrow> event list \<Rightarrow> dashboard \<Rightarrow> dashboard option" where
  "run JSON_parse [] st = Some st"
| "run JSON_parse (ev # evs) st =
     (if enabled ev st then run JSON_parse evs (fire JSON_parse ev st) else None)"

text \<open>The sessions that are not closed.\<close>

definition live_sessions :: "dashboard \<Rightarrow> nat" where
  "live_sessions st = length (filter (\<lambda>r. r \<noteq> CLOSED) (sockets st))"

text \<open>The heartbeat ticks of a run: the times the interval ran its callback.\<close>

fun is_tick :: "event \<Rightarrow> bool" where
  "is_tick (IntervalDue i) = True"
| "is_tick ev = False"

definition ticks :: "event list \<Rightarrow> nat" where
  "ticks evs = length (filter is_tick evs)"

text \<open>The part of the state that the connection and the heartbeat work on.\<close>

definition connection ::
  "dashboard \<Rightarrow> nat option \<times> ready_state list \<times> (int \<times> callback) list \<times>
     (int \<times> int \<times> callback) list \<times> int \<times> (nat \<times> (string \<times> js_value) list) list" where
  "connection st =
     (websocketConnection st, sockets st, timeouts st, intervals st, clock st, sent st)"

text \<open>
  The registry operations of the specification: \<open>upsert\<close> is \<open>addActiveMeeting\<close>,
  \<open>remove\<close> is \<open>removeActiveMeeting\<close>, and a snapshot is the list of entries.
\<close>

datatype registry_op = Upsert js_value | Remove js_value

fun apply_op :: "registry_op \<Rightarrow> dashboard \<Rightarrow> dashboard" where
  "apply_op (Upsert meeting) st = state_of (addActiveMeeting meeting st)"
| "apply_op (Remove meetingId) st = state_of (removeActiveMeeting meetingId st)"

text \<open>An operation whose meeting id, when it has one, is a primitive value.\<close>

fun primitive_id :: "registry_op \<Rightarrow> bool" where
  "primitive_id (Upsert meeting) =
     (case get_prop meeting ''meeting_id'' of Inl e \<Rightarrow> True | Inr meeting_id \<Rightarrow> primitive meeting_id)"
| "primitive_id (Remove meetingId) = primitive meetingId"

text \<open>A meeting of a \<open>meetings_update\<close> whose row can be rendered.\<close>

definition row_fields :: "string list" where
  "row_fields = [''title'', ''platform'', ''start_time'', ''duration_minutes'', ''status'',
                 ''meeting_id'']"

definition renders_row :: "js_value \<Rightarrow> bool" where
  "renders_row meeting = list_all (\<lambda>name. \<not> isl (prop_string meeting name)) row_fields"

text \<open>An entry of the feed whose message holds no element of class \<open>alert\<close>.\<close>

definition plain :: "update \<Rightarrow> bool" where
  "plain u = (upd_alerts u = 0)"

text \<open>
  A sample page, at time 1000, for the examples. Its parser finds one element of class
  \<open>alert\<close> in the transcript message of \<open>markup_text\<close> and none in any other message.
\<close>

definition markup_text :: string where
  "markup_text = ''<b class=alert>x</b>''"

definition markup_message :: "part list" where
  "markup_message = [Lit ''Live transcript: '', Subst (JStr markup_text), Lit ''...'']"

definition page0 :: dashboard where
  "page0 = \<lparr>activeMeetings = [], websocketConnection = None, sockets = [],
            timeouts = [], intervals = [], clock = 1000, sent = [], console = [],
            fetches = [], live_updates = [], active_meetings = NoActiveMeetings,
            meeting_history = NoHistory, google_status = [], zoom_status = [],
            alert_elements = (\<lambda>message. if message = markup_message then 1 else 0)\<rparr>"

text \<open>
  Sample values for the examples, with the references of their objects: a meeting, a
  \<open>meetings_update\<close> message, a \<open>transcript_update\<close> message, and a meeting whose id is
  the array \<open>[7]\<close>.
\<close>

definition sample_meeting :: "reference \<Rightarrow> string \<Rightarrow> string \<Rightarrow> js_value" where
  "sample_meeting r meeting_id title =
     JObj r [(''meeting_id'', JStr meeting_id), (''title'', JStr title),
             (''platform'', JStr ''zoom''), (''start_time'', JStr ''2024-01-01T09:00:00Z'')]"

definition meetings_update_event :: "js_value \<Rightarrow> js_value" where
  "meetings_update_event meetings =
     JObj 10 [(''type'', JStr ''meetings_update''), (''data'', JObj 11 [(''meetings'', meetings)])]"

definition transcript_event :: "string \<Rightarrow> js_value" where
  "transcript_event s = JObj 20 [(''type'', JStr ''transcript_update''), (''text'', JStr s)]"

definition array_id_meeting :: "reference \<Rightarrow> reference \<Rightarrow> js_value" where
  "array_id_meeting r r' = JObj r [(''meeting_id'', JArr r' [JNum 7]), (''title'', JStr ''Standup'')]"

text \<open>Dispatching a list of messages, one after the other; a throw ends its message only.\<close>

fun dispatch_all :: "js_value list \<Rightarrow> dashboard \<Rightarrow> dashboard" where
  "dispatch_all [] st = st"
| "dispatch_all (data # rest) st = dispatch_all rest (state_of (handleWebSocketMessage data st))"

section \<open>Properties\<close>

lemma fst_set_js_map_set: "fst ` set (js_map_set k v es) = insert k (fst ` set es)"
  by (induction es) auto

lemma distinct_js_map_set:
  "distinct (map fst es) \<Longrightarrow> distinct (map fst (js_map_set k v es))"
proof (induction es)
  case Nil
  show ?case by simp
next
  case (Cons e es)
  have "fst e \<notin> fst ` set (js_map_set k v es)" if "fst e \<noteq> k"
    using Cons.prems that by (simp add: fst_set_js_map_set)
  with Cons show ?case by auto
qed

lemma fst_set_js_map_delete: "fst ` set (js_map_delete k es) = fst ` set es - {k}"
  by (induction es) auto

lemma distinct_js_map_delete:
  "distinct (map fst es) \<Longrightarrow> distinct (map fst (js_map_delete k es))"
  by (induction es) (auto simp: fst_set_js_map_delete)

lemma js_map_set_twice: "js_map_set k v (js_map_set k v es) = js_map_set k v es"
  by (induction es) auto

lemma get_prop_Inl:
  "get_prop v name = Inl e \<Longrightarrow> e = TypeError \<and> (v = JUndefined \<or> v = JNull)"
  by (cases v) auto

lemma get_prop_Inr:
  "v \<noteq> JUndefined \<Longrightarrow> v \<noteq> JNull \<Longrightarrow> \<exists>x. get_prop v name = Inr x"
  by (cases v) auto

lemma falsy_convertible: "falsy v \<Longrightarrow> convertible v"
  by (cases v) auto

lemma interpolate_Inl: "interpolate v = Inl e \<Longrightarrow> e = TypeError"
  by (simp add: interpolate_def split: if_splits)

lemma interpolate_Inr: "interpolate v = Inr x \<Longrightarrow> x = v \<and> convertible v"
  by (simp add: interpolate_def split: if_splits)

lemma prop_string_Inl: "prop_string v name = Inl e \<Longrightarrow> e = TypeError"
  by (auto simp: prop_string_def split: sum.splits dest: get_prop_Inl interpolate_Inl)

lemma prop_string_Inr:
  "prop_string v name = Inr x \<Longrightarrow> get_prop v name = Inr x \<and> convertible x"
  by (auto simp: prop_string_def split: sum.splits dest: interpolate_Inr)

lemma prop_string_convertible:
  "get_prop v name = Inr x \<Longrightarrow> convertible x \<Longrightarrow> prop_string v name = Inr x"
  by (simp add: prop_string_def interpolate_def)

lemma shown_or_NA_Inl: "shown_or_NA v = Inl e \<Longrightarrow> e = TypeError"
  by (auto simp: shown_or_NA_def split: if_splits sum.splits dest: interpolate_Inl)

lemma shown_or_NA_Inr:
  "shown_or_NA v = Inr x \<Longrightarrow> convertible v \<and> x = (if falsy v then None else Some v)"
  by (auto simp: shown_or_NA_def falsy_convertible split: if_splits sum.splits
      dest: interpolate_Inr)

lemma shown_or_NA_convertible:
  "convertible v \<Longrightarrow> shown_or_NA v = Inr (if falsy v then None else Some v)"
  by (simp add: shown_or_NA_def interpolate_def)

lemma case_sum_InlE:
  assumes "(case x of Inl e \<Rightarrow> Inl e | Inr a \<Rightarrow> f a) = Inl e"
  obtains "x = Inl e" | a where "x = Inr a" "f a = Inl e"
  using assms by (cases x) auto

lemma case_sum_InrE:
  assumes "(case x of Inl e \<Rightarrow> Inl e | Inr a \<Rightarrow> f a) = Inr r"
  obtains a where "x = Inr a" "f a = Inr r"
  using assms by (cases x) auto

lemma map_throwing_Inl:
  assumes "\<And>x e. f x = Inl e \<Longrightarrow> e = TypeError"
  shows "map_throwing f xs = Inl e \<Longrightarrow> e = TypeError"
proof (induction xs arbitrary: e)
  case Nil
  then show ?case by simp
next
  case (Cons x xs)
  from Cons.prems show ?case
    by (auto split: sum.splits dest: assms Cons.IH)
qed

lemma render_card_Inl: "render_card entry = Inl e \<Longrightarrow> e = TypeError"
  unfolding render_card_def
  by (cases entry, simp, elim case_sum_InlE)
     (auto dest: interpolate_Inl prop_string_Inl)

lemma render_cards_Inl: "render_cards es = Inl e \<Longrightarrow> e = TypeError"
  unfolding render_cards_def by (rule map_throwing_Inl [OF render_card_Inl])

lemma render_row_Inl: "render_row m = Inl e \<Longrightarrow> e = TypeError"
  unfolding render_row_def
  by (elim case_sum_InlE)
     (auto dest: prop_string_Inl get_prop_Inl shown_or_NA_Inl)

lemma render_rows_Inl: "render_rows ms = Inl e \<Longrightarrow> e = TypeError"
  unfolding render_rows_def by (rule map_throwing_Inl [OF render_row_Inl])

lemma render_row_Inr:
  assumes "render_row m = Inr r"
  shows "renders_row m \<and> get_prop m ''meeting_id'' = Inr (row_meeting_id r)"
proof -
  from assms [unfolded render_row_def]
  obtain title platform start_time shown_date duration_minutes shown_duration status meeting_id
    where f: "prop_string m ''title'' = Inr title" "prop_string m ''platform'' = Inr platform"
      "get_prop m ''start_time'' = Inr start_time" "shown_or_NA start_time = Inr shown_date"
      "get_prop m ''duration_minutes'' = Inr duration_minutes"
      "shown_or_NA duration_minutes = Inr shown_duration"
      "prop_string m ''status'' = Inr status" "prop_string m ''meeting_id'' = Inr meeting_id"
    and r: "r = \<lparr>row_title = title, row_platform = platform, row_start_time = shown_date,
             row_duration_minutes = shown_duration, row_status = status,
             row_meeting_id = meeting_id\<rparr>"
    by (elim case_sum_InrE) auto
  from f(3,4) have "prop_string m ''start_time'' = Inr start_time"
    by (auto dest: shown_or_NA_Inr intro: prop_string_convertible)
  moreover from f(5,6) have "prop_string m ''duration_minutes'' = Inr duration_minutes"
    by (auto dest: shown_or_NA_Inr intro: prop_string_convertible)
  ultimately have "renders_row m"
    using f by (simp add: renders_row_def row_fields_def)
  moreover from f(8) r have "get_prop m ''meeting_id'' = Inr (row_meeting_id r)"
    by (auto dest: prop_string_Inr)
  ultimately show ?thesis by simp
qed

lemma render_row_renders:
  assumes "renders_row m"
  shows "\<exists>r. render_row m = Inr r"
proof -
  from assms obtain title platform start_time duration_minutes status meeting_id
    where f: "prop_string m ''title'' = Inr title" "prop_string m ''platform'' = Inr platform"
      "prop_string m ''start_time'' = Inr start_time"
      "prop_string m ''duration_minutes'' = Inr duration_minutes"
      "prop_string m ''status'' = Inr status" "prop_string m ''meeting_id'' = Inr meeting_id"
    unfolding renders_row_def row_fields_def
    by (auto simp: isl_def) (metis sum.exhaust)
  from prop_string_Inr [OF f(3)] have s: "get_prop m ''start_time'' = Inr start_time"
    "shown_or_NA start_time = Inr (if falsy start_time then None else Some start_time)"
    by (simp_all add: shown_or_NA_convertible)
  from prop_string_Inr [OF f(4)] have d: "get_prop m ''duration_minutes'' = Inr duration_minutes"
    "shown_or_NA duration_minutes =
       Inr (if falsy duration_minutes then None else Some duration_minutes)"
    by (simp_all add: shown_or_NA_convertible)
  show ?thesis
    by (simp add: render_row_def f s d)
qed

lemma render_row_fails: "\<not> renders_row m \<Longrightarrow> render_row m = Inl TypeError"
  by (cases "render_row m") (auto dest: render_row_Inl render_row_Inr)

lemma render_rows_ok:
  "list_all renders_row ms \<Longrightarrow>
     \<exists>rs. render_rows ms = Inr rs \<and>
          map (\<lambda>r. Inr (row_meeting_id r)) rs = map (\<lambda>m. get_prop m ''meeting_id'') ms"
proof (induction ms)
  case Nil
  show ?case by (simp add: render_rows_def)
next
  case (Cons m ms)
  then obtain rs where rs: "render_rows ms = Inr rs"
    "map (\<lambda>r. Inr (row_meeting_id r)) rs = map (\<lambda>m. get_prop m ''meeting_id'') ms"
    by auto
  from Cons.prems render_row_renders obtain r where r: "render_row m = Inr r" by auto
  from render_row_Inr [OF r] have "get_prop m ''meeting_id'' = Inr (row_meeting_id r)" by simp
  with r rs show ?case
    by (simp add: render_rows_def)
qed

lemma render_rows_fails:
  "\<not> list_all renders_row ms \<Longrightarrow> render_rows ms = Inl TypeError"
proof (induction ms)
  case Nil
  then show ?case by simp
next
  case (Cons m ms)
  show ?case
  proof (cases "renders_row m")
    case False
    then show ?thesis by (simp add: render_rows_def render_row_fails)
  next
    case True
    with Cons.prems have "\<not> list_all renders_row ms" by simp
    from Cons.IH [OF this] have "map_throwing render_row ms = Inl TypeError"
      by (simp add: render_rows_def)
    then show ?thesis
      by (cases "render_row m") (simp_all add: render_rows_def render_row_Inl)
  qed
qed

lemma activeMeetings_updateActiveMeetingsDisplay:
  "activeMeetings (state_of (updateActiveMeetingsDisplay st)) = activeMeetings st"
  by (simp add: updateActiveMeetingsDisplay_def split: sum.splits)

lemma updateActiveMeetingsDisplay_twice:
  "updateActiveMeetingsDisplay (state_of (updateActiveMeetingsDisplay st)) =
     updateActiveMeetingsDisplay st"
  by (auto simp: updateActiveMeetingsDisplay_def split: sum.splits)

lemma distinct_apply_op:
  "distinct (map fst (activeMeetings st)) \<Longrightarrow>
     distinct (map fst (activeMeetings (apply_op op st)))"
  by (cases op)
    (auto simp: addActiveMeeting_def removeActiveMeeting_def
      activeMeetings_updateActiveMeetingsDisplay distinct_js_map_set distinct_js_map_delete
      split: sum.splits)

lemma distinct_fold_apply_op:
  "distinct (map fst (activeMeetings st)) \<Longrightarrow>
     distinct (map fst (activeMeetings (fold apply_op ops st)))"
  by (induction ops arbitrary: st) (auto simp: distinct_apply_op)

lemma primitive_keys_apply_op:
  assumes "primitive_id op" and "list_all primitive (map fst (activeMeetings st))"
  shows "list_all primitive (map fst (activeMeetings (apply_op op st)))"
proof (cases op)
  case (Upsert meeting)
  show ?thesis
  proof (cases "get_prop meeting ''meeting_id''")
    case (Inl e)
    with Upsert assms(2) show ?thesis by (simp add: addActiveMeeting_def)
  next
    case (Inr k)
    with Upsert assms(1) have "primitive k" by simp
    with assms(2) have "\<forall>x\<in>fst ` set (js_map_set k meeting (activeMeetings st)). primitive x"
      by (auto simp: fst_set_js_map_set list_all_iff)
    with Upsert Inr show ?thesis
      by (simp add: addActiveMeeting_def activeMeetings_updateActiveMeetingsDisplay
          list_all_iff)
  qed
next
  case (Remove meetingId)
  from assms(2) have "\<forall>x\<in>fst ` set (js_map_delete meetingId (activeMeetings st)). primitive x"
    by (auto simp: fst_set_js_map_delete list_all_iff)
  with Remove show ?thesis
    by (simp add: removeActiveMeeting_def activeMeetings_updateActiveMeetingsDisplay
        list_all_iff)
qed

lemma primitive_keys_fold_apply_op:
  "list_all primitive_id ops \<Longrightarrow> list_all primitive (map fst (activeMeetings st)) \<Longrightarrow>
     list_all primitive (map fst (activeMeetings (fold apply_op ops st)))"
  by (induction ops arbitrary: st) (auto simp: primitive_keys_apply_op)

lemma butlast_of_eleven: "length xs = 10 \<Longrightarrow> butlast (x # xs) = take 10 (x # xs)"
  by (simp add: butlast_conv_take)

lemmas registry_defs =
  addActiveMeeting_def removeActiveMeeting_def updateActiveMeetingsDisplay_def
  render_cards_def render_card_def prop_string_def interpolate_def
  sample_meeting_def array_id_meeting_def run_script_def page0_def

subsection \<open>The registry\<close>

text \<open>
  Claim C4, as the script has it. Whatever sequence of upserts (\<open>addActiveMeeting\<close>)
  and removals (\<open>removeActiveMeeting\<close>) whose meeting ids are primitive values (strings,
  as the data model has them) is applied to the registry that the script creates
  empty, the ids in the registry are primitive values and no two entries have the same
  one. An operation that throws (an upsert of \<open>null\<close> or \<open>undefined\<close>, or one whose card
  cannot be rendered) leaves the state it had reached, and the sequence goes on.
\<close>

theorem registry_ids_unique:
  assumes "list_all primitive_id ops"
  shows "distinct (map fst (activeMeetings (fold apply_op ops (run_script page)))) \<and>
         list_all primitive (map fst (activeMeetings (fold apply_op ops (run_script page))))"
proof -
  have "distinct (map fst (activeMeetings (fold apply_op ops (run_script page))))"
    by (rule distinct_fold_apply_op) (simp add: run_script_def)
  moreover have "list_all primitive (map fst (activeMeetings (fold apply_op ops (run_script page))))"
    by (rule primitive_keys_fold_apply_op [OF assms]) (simp add: run_script_def)
  ultimately show ?thesis by simp
qed

theorem registry_ids_unique_witness:
  "list_all primitive_id
     [Upsert (sample_meeting 1 ''m1'' ''Standup''), Upsert (sample_meeting 2 ''m2'' ''Review''),
      Upsert (sample_meeting 3 ''m1'' ''Standup, again''), Remove (JStr ''m2'')] \<and>
   map fst (activeMeetings (fold apply_op
     [Upsert (sample_meeting 1 ''m1'' ''Standup''), Upsert (sample_meeting 2 ''m2'' ''Review''),
      Upsert (sample_meeting 3 ''m1'' ''Standup, again''), Remove (JStr ''m2'')]
     (run_script page0))) = [JStr ''m1''] \<and>
   distinct (map fst (activeMeetings (fold apply_op
     [Upsert (sample_meeting 1 ''m1'' ''Standup''), Upsert (sample_meeting 2 ''m2'' ''Review''),
      Upsert (sample_meeting 3 ''m1'' ''Standup, again''), Remove (JStr ''m2'')]
     (run_script page0))))"
  using registry_ids_unique [of
     "[Upsert (sample_meeting 1 ''m1'' ''Standup''), Upsert (sample_meeting 2 ''m2'' ''Review''),
       Upsert (sample_meeting 3 ''m1'' ''Standup, again''), Remove (JStr ''m2'')]" page0]
  by (simp add: registry_defs)

text \<open>
  The claim as written fails for ids that are arrays or objects: \<open>Map\<close> finds such a
  key by its reference, and two messages that were parsed separately carry two
  references. Two upserts with the id \<open>[7]\<close> leave two entries with the id \<open>[7]\<close>.
\<close>

theorem registry_ids_counterexample:
  "map fst (activeMeetings (fold apply_op
     [Upsert (array_id_meeting 1 2), Upsert (array_id_meeting 3 4)] (run_script page0)))
   = [JArr 2 [JNum 7], JArr 4 [JNum 7]]"
  by (simp add: registry_defs)

text \<open>
  Claim C5. \<open>addActiveMeeting\<close> is idempotent: called again with the same meeting on
  the state the first call left, it ends as the first call did (it returns, or throws
  the same error) with the same state, so the registry and its display are the same
  after two calls as after one.
\<close>

theorem upsert_idempotent:
  "addActiveMeeting m (state_of (addActiveMeeting m st)) = addActiveMeeting m st"
proof (cases "get_prop m ''meeting_id''")
  case (Inl e)
  then show ?thesis by (simp add: addActiveMeeting_def)
next
  case (Inr k)
  define st1 where "st1 = st\<lparr>activeMeetings := js_map_set k m (activeMeetings st)\<rparr>"
  define st2 where "st2 = state_of (updateActiveMeetingsDisplay st1)"
  have once: "addActiveMeeting m st = updateActiveMeetingsDisplay st1"
    using Inr by (simp add: addActiveMeeting_def st1_def)
  have "activeMeetings st2 = js_map_set k m (activeMeetings st)"
    by (simp add: st2_def activeMeetings_updateActiveMeetingsDisplay st1_def)
  then have "js_map_set k m (activeMeetings st2) = activeMeetings st2"
    by (simp add: js_map_set_twice)
  then have "addActiveMeeting m st2 = updateActiveMeetingsDisplay st2"
    using Inr by (simp add: addActiveMeeting_def)
  also have "\<dots> = updateActiveMeetingsDisplay st1"
    by (simp add: st2_def updateActiveMeetingsDisplay_twice)
  finally show ?thesis
    by (simp add: once st2_def)
qed

subsection \<open>The feed\<close>

lemma alert_count_plain: "list_all plain us \<Longrightarrow> alert_count us = length us"
  by (induction us) (simp_all add: alert_count_def plain_def)

lemma remove_last_alert_plain: "list_all plain us \<Longrightarrow> remove_last_alert us = butlast us"
  by (induction us rule: remove_last_alert.induct) (simp_all add: plain_def)

text \<open>
  With messages that bring no element of class \<open>alert\<close>, a call of \<open>addLiveUpdate\<close> on
  a feed of at most 10 entries leaves at most 10: the new entry in front, followed by
  the entries there were, without the oldest one when that makes 11.
\<close>

lemma addLiveUpdate_plain_keeps_ten:
  assumes "length (live_updates st) \<le> 10" and "list_all plain (live_updates st)"
    and "alert_elements st message = 0"
  shows "length (live_updates (addLiveUpdate message type st)) \<le> 10 \<and>
         list_all plain (live_updates (addLiveUpdate message type st)) \<and>
         live_updates (addLiveUpdate message type st) =
           take 10 (\<lparr>upd_time = clock st, upd_type = type, upd_message = message,
                      upd_alerts = 0\<rparr> # live_updates st)"
proof -
  let ?u = "\<lparr>upd_time = clock st, upd_type = type, upd_message = message, upd_alerts = 0\<rparr>"
  have pl: "list_all plain (?u # live_updates st)"
    using assms(2) by (simp add: plain_def)
  have upd: "live_updates (addLiveUpdate message type st) =
      (if length (?u # live_updates st) > 10 then butlast (?u # live_updates st)
       else ?u # live_updates st)"
    using alert_count_plain [OF pl] remove_last_alert_plain [OF pl] assms(3)
    by (simp add: addLiveUpdate_def Let_def)
  show ?thesis
  proof (cases "length (live_updates st) = 10")
    case True
    with upd have "live_updates (addLiveUpdate message type st) = take 10 (?u # live_updates st)"
      by (simp add: butlast_of_eleven del: butlast.simps take_Suc_Cons)
    with True pl show ?thesis
      by (simp add: list_all_iff del: take_Suc_Cons) (meson in_set_takeD)
  next
    case False
    with assms(1) have "length (live_updates st) < 10" by simp
    with upd pl show ?thesis by simp
  qed
qed

text \<open>
  Claim C10. The script means to keep the last 10 entries, as its comment says, and it
  does not: a message is written into the entry as markup, and an element of class
  \<open>alert\<close> that it brings is counted, and removed, in place of an entry. Of sixteen
  transcript updates with the text \<open><b class=alert>x</b>\<close>, the fifteenth leaves a feed
  of 10 entries and the sixteenth a feed of 11.
\<close>

theorem live_updates_exceed_ten:
  "length (live_updates (dispatch_all (replicate 15 (transcript_event markup_text))
      (page_loaded page0))) = 10 \<and>
   length (live_updates (dispatch_all (replicate 16 (transcript_event markup_text))
      (page_loaded page0))) = 11"
  by code_simp

subsection \<open>The dispatcher\<close>

lemma updateActiveMeetingsDisplay_cases:
  "updateActiveMeetingsDisplay st = Throw TypeError st \<or>
   (\<exists>v. updateActiveMeetingsDisplay st = Normal (st\<lparr>active_meetings := v\<rparr>))"
proof (cases "render_cards (activeMeetings st)")
  case (Inl e)
  with render_cards_Inl [OF Inl] show ?thesis
    by (auto simp: updateActiveMeetingsDisplay_def)
next
  case (Inr cs)
  then show ?thesis
    by (auto simp: updateActiveMeetingsDisplay_def)
qed

lemma removeActiveMeeting_cases:
  "removeActiveMeeting i st =
     Throw TypeError (st\<lparr>activeMeetings := js_map_delete i (activeMeetings st)\<rparr>) \<or>
   (\<exists>v. removeActiveMeeting i st =
      Normal (st\<lparr>activeMeetings := js_map_delete i (activeMeetings st), active_meetings := v\<rparr>))"
  using updateActiveMeetingsDisplay_cases
    [of "st\<lparr>activeMeetings := js_map_delete i (activeMeetings st)\<rparr>"]
  by (auto simp: removeActiveMeeting_def)

lemma updateMeetingHistory_cases:
  "updateMeetingHistory meetings st = Throw TypeError st \<or>
   (\<exists>v. updateMeetingHistory meetings st = Normal (st\<lparr>meeting_history := v\<rparr>))"
proof (cases meetings)
  case (JArr r ms)
  show ?thesis
  proof (cases "render_rows ms")
    case (Inl e)
    with render_rows_Inl [OF Inl] JArr show ?thesis
      by (auto simp: updateMeetingHistory_def)
  next
    case (Inr rs)
    with JArr show ?thesis
      by (auto simp: updateMeetingHistory_def)
  qed
qed (auto simp: updateMeetingHistory_def)

lemmas sample_defs =
  sample_meeting_def meetings_update_event_def page0_def page_loaded_def run_script_def
  onDOMContentLoaded_def checkPlatformConnections_def connectWebSocket_def
  loadMeetingHistory_def render_cards_def render_card_def render_rows_def render_row_def
  shown_or_NA_def prop_string_def interpolate_def addLiveUpdate_def Let_def alert_count_def
  markup_message_def

text \<open>
  Claim C8. An event whose \<open>type\<close> is none of the five known tags (a missing
  \<open>type\<close> is \<open>undefined\<close>) makes the dispatcher return normally; the only change to
  the state is one console entry with the tag, so the registry is as it was and the
  next event is dispatched from there.
\<close>

theorem unknown_type_dropped:
  assumes "get_prop data ''type'' = Inr type"
    and "type \<notin> {JStr ''meeting_started'', JStr ''meeting_ended'', JStr ''transcript_update'',
                   JStr ''meetings_update'', JStr ''pong''}"
  shows "handleWebSocketMessage data st =
           Normal (st\<lparr>console := console st @
                     [ConsoleLog ''Unknown WebSocket message type:'' [type]]\<rparr>) \<and>
         activeMeetings (state_of (handleWebSocketMessage data st)) = activeMeetings st"
  using assms by (simp add: handleWebSocketMessage_def)

theorem unknown_type_dropped_witness:
  "get_prop (JObj 1 [(''type'', JStr ''heartbeat_ack'')]) ''type'' = Inr (JStr ''heartbeat_ack'') \<and>
   handleWebSocketMessage (JObj 1 [(''type'', JStr ''heartbeat_ack'')]) (page_loaded page0) =
     Normal ((page_loaded page0)\<lparr>console := console (page_loaded page0) @
        [ConsoleLog ''Unknown WebSocket message type:'' [JStr ''heartbeat_ack'']]\<rparr>)"
  using unknown_type_dropped
    [of "JObj 1 [(''type'', JStr ''heartbeat_ack'')]" "JStr ''heartbeat_ack''" "page_loaded page0"]
  by simp

text \<open>
  Claim C9. A \<open>meeting_ended\<close> event whose \<open>meeting\<close> field is absent or \<open>null\<close> makes
  the dispatcher throw a TypeError: the entry of \<open>meeting_id\<close> has been removed from
  the registry by then, and neither the live update nor the history refresh happens.
\<close>

theorem meeting_ended_needs_meeting:
  assumes "get_prop data ''type'' = Inr (JStr ''meeting_ended'')"
    and "get_prop data ''meeting_id'' = Inr meeting_id"
    and "get_prop data ''meeting'' = Inr JUndefined \<or> get_prop data ''meeting'' = Inr JNull"
  shows "\<exists>st'. handleWebSocketMessage data st = Throw TypeError st' \<and>
           activeMeetings st' = js_map_delete meeting_id (activeMeetings st) \<and>
           live_updates st' = live_updates st \<and> fetches st' = fetches st"
  using assms removeActiveMeeting_cases [of meeting_id st]
  by (auto simp: handleWebSocketMessage_def prop_string_def)

theorem meeting_ended_needs_meeting_witness:
  "get_prop (JObj 2 [(''type'', JStr ''meeting_ended''), (''meeting_id'', JStr ''m1'')]) ''meeting''
     = Inr JUndefined \<and>
   activeMeetings (state_of (addActiveMeeting (sample_meeting 1 ''m1'' ''Standup'') (page_loaded page0)))
     = [(JStr ''m1'', sample_meeting 1 ''m1'' ''Standup'')] \<and>
   (\<exists>st'. handleWebSocketMessage
            (JObj 2 [(''type'', JStr ''meeting_ended''), (''meeting_id'', JStr ''m1'')])
            (state_of (addActiveMeeting (sample_meeting 1 ''m1'' ''Standup'') (page_loaded page0)))
          = Throw TypeError st' \<and> activeMeetings st' = [])"
  using meeting_ended_needs_meeting
    [of "JObj 2 [(''type'', JStr ''meeting_ended''), (''meeting_id'', JStr ''m1'')]" "JStr ''m1''"
        "state_of (addActiveMeeting (sample_meeting 1 ''m1'' ''Standup'') (page_loaded page0))"]
  by (simp add: addActiveMeeting_def updateActiveMeetingsDisplay_def sample_defs) blast

text \<open>
  Claim C1, as the script has it. A \<open>meetings_update\<close> event does not touch the
  registry: the state after the dispatch differs from the state before in the history
  table at most. When the event carries a list of meetings and the row of each can be
  rendered (none is \<open>null\<close>, and every field shown converts to a string), the history
  table gets one row per element of the list, in the order of the list and with
  repeated ids kept, or the placeholder when the list is empty. When the row of one
  cannot be rendered, the dispatch throws a TypeError and the table stays as it was.
\<close>

theorem meetings_update_renders_history:
  assumes "get_prop data ''type'' = Inr (JStr ''meetings_update'')"
  shows "activeMeetings (state_of (handleWebSocketMessage data st)) = activeMeetings st \<and>
         (state_of (handleWebSocketMessage data st))\<lparr>meeting_history := meeting_history st\<rparr> = st \<and>
         (\<forall>d r ms. get_prop data ''data'' = Inr d \<longrightarrow> get_prop d ''meetings'' = Inr (JArr r ms) \<longrightarrow>
            list_all renders_row ms \<longrightarrow>
            (\<exists>rs. handleWebSocketMessage data st =
                    Normal (st\<lparr>meeting_history := (if ms = [] then NoHistory else Rows rs)\<rparr>) \<and>
                  map (\<lambda>r. Inr (row_meeting_id r)) rs = map (\<lambda>m. get_prop m ''meeting_id'') ms)) \<and>
         (\<forall>d r ms. get_prop data ''data'' = Inr d \<longrightarrow> get_prop d ''meetings'' = Inr (JArr r ms) \<longrightarrow>
            \<not> list_all renders_row ms \<longrightarrow>
            handleWebSocketMessage data st = Throw TypeError st)"
proof -
  have frame:
    "(state_of (handleWebSocketMessage data st))\<lparr>meeting_history := meeting_history st\<rparr> = st"
  proof (cases "get_prop data ''data''")
    case (Inl e)
    with assms show ?thesis by (simp add: handleWebSocketMessage_def)
  next
    case (Inr d)
    show ?thesis
    proof (cases "get_prop d ''meetings''")
      case (Inl e)
      with Inr assms show ?thesis by (simp add: handleWebSocketMessage_def)
    next
      case meetings: (Inr meetings)
      with Inr assms updateMeetingHistory_cases [of meetings st] show ?thesis
        by (auto simp: handleWebSocketMessage_def)
    qed
  qed
  have "activeMeetings
          ((state_of (handleWebSocketMessage data st))\<lparr>meeting_history := meeting_history st\<rparr>)
        = activeMeetings st"
    by (simp only: frame)
  then have registry:
    "activeMeetings (state_of (handleWebSocketMessage data st)) = activeMeetings st"
    by simp
  have rows: "\<exists>rs. handleWebSocketMessage data st =
                 Normal (st\<lparr>meeting_history := (if ms = [] then NoHistory else Rows rs)\<rparr>) \<and>
              map (\<lambda>r. Inr (row_meeting_id r)) rs = map (\<lambda>m. get_prop m ''meeting_id'') ms"
    if d: "get_prop data ''data'' = Inr d" "get_prop d ''meetings'' = Inr (JArr r ms)"
      and ok: "list_all renders_row ms" for d r ms
  proof -
    from render_rows_ok [OF ok] obtain rs where rs: "render_rows ms = Inr rs"
      "map (\<lambda>r. Inr (row_meeting_id r)) rs = map (\<lambda>m. get_prop m ''meeting_id'') ms"
      by blast
    have "handleWebSocketMessage data st =
            Normal (st\<lparr>meeting_history := (if ms = [] then NoHistory else Rows rs)\<rparr>)"
      using assms d rs(1) by (simp add: handleWebSocketMessage_def updateMeetingHistory_def)
    with rs(2) show ?thesis by blast
  qed
  have throws: "handleWebSocketMessage data st = Throw TypeError st"
    if d: "get_prop data ''data'' = Inr d" "get_prop d ''meetings'' = Inr (JArr r ms)"
      and bad: "\<not> list_all renders_row ms" for d r ms
  proof -
    from bad have "ms \<noteq> []" by auto
    with assms d render_rows_fails [OF bad] show ?thesis
      by (simp add: handleWebSocketMessage_def updateMeetingHistory_def)
  qed
  from registry frame rows throws show ?thesis by blast
qed

theorem meetings_update_renders_history_witness:
  "get_prop (meetings_update_event
       (JArr 12 [sample_meeting 1 ''m1'' ''Standup'', sample_meeting 2 ''m2'' ''Review''])) ''type''
     = Inr (JStr ''meetings_update'') \<and>
   activeMeetings (state_of (handleWebSocketMessage
       (meetings_update_event
          (JArr 12 [sample_meeting 1 ''m1'' ''Standup'', sample_meeting 2 ''m2'' ''Review'']))
       (state_of (addActiveMeeting (sample_meeting 3 ''m3'' ''Retro'') (page_loaded page0)))))
     = [(JStr ''m3'', sample_meeting 3 ''m3'' ''Retro'')] \<and>
   (\<exists>rs. handleWebSocketMessage
       (meetings_update_event
          (JArr 12 [sample_meeting 1 ''m1'' ''Standup'', sample_meeting 2 ''m2'' ''Review'']))
       (state_of (addActiveMeeting (sample_meeting 3 ''m3'' ''Retro'') (page_loaded page0)))
     = Normal ((state_of (addActiveMeeting (sample_meeting 3 ''m3'' ''Retro'') (page_loaded page0)))
                 \<lparr>meeting_history := Rows rs\<rparr>) \<and>
     map (\<lambda>r. Inr (row_meeting_id r)) rs =
       [Inr (JStr ''m1''), Inr (JStr ''m2'') :: js_error + js_value])"
proof -
  let ?ms = "[sample_meeting 1 ''m1'' ''Standup'', sample_meeting 2 ''m2'' ''Review'']"
  let ?D = "meetings_update_event (JArr 12 ?ms)"
  let ?S = "state_of (addActiveMeeting (sample_meeting 3 ''m3'' ''Retro'') (page_loaded page0))"
  have type: "get_prop ?D ''type'' = Inr (JStr ''meetings_update'')"
    by (simp add: meetings_update_event_def)
  note th = meetings_update_renders_history [OF type, of ?S]
  have S: "activeMeetings ?S = [(JStr ''m3'', sample_meeting 3 ''m3'' ''Retro'')]"
    by (simp add: addActiveMeeting_def updateActiveMeetingsDisplay_def sample_defs)
  have registry: "activeMeetings (state_of (handleWebSocketMessage ?D ?S))
      = [(JStr ''m3'', sample_meeting 3 ''m3'' ''Retro'')]"
    using th [THEN conjunct1] S by (rule trans)
  have d1: "get_prop ?D ''data'' = Inr (JObj 11 [(''meetings'', JArr 12 ?ms)])"
    by (simp add: meetings_update_event_def)
  have d2: "get_prop (JObj 11 [(''meetings'', JArr 12 ?ms)]) ''meetings'' = Inr (JArr 12 ?ms)"
    by simp
  have d3: "list_all renders_row ?ms"
    by (simp add: renders_row_def row_fields_def prop_string_def interpolate_def
        sample_meeting_def)
  note rows = th [THEN conjunct2, THEN conjunct2, THEN conjunct1, THEN spec, THEN spec,
      THEN spec, THEN mp, THEN mp, THEN mp, OF d1 d2 d3]
  from rows obtain rs where
    e1: "handleWebSocketMessage ?D ?S =
       Normal (?S\<lparr>meeting_history := (if ?ms = [] then NoHistory else Rows rs)\<rparr>)"
    and e2: "map (\<lambda>r. Inr (row_meeting_id r)) rs = map (\<lambda>m. get_prop m ''meeting_id'') ?ms"
    by (elim exE conjE)
  have ne: "(if ?ms = [] then NoHistory else Rows rs) = Rows rs"
    by simp
  have e1': "handleWebSocketMessage ?D ?S = Normal (?S\<lparr>meeting_history := Rows rs\<rparr>)"
    using e1 unfolding ne .
  have ids: "map (\<lambda>m. get_prop m ''meeting_id'') ?ms
      = [Inr (JStr ''m1''), Inr (JStr ''m2'')]"
    by (simp add: sample_meeting_def)
  have e2': "map (\<lambda>r. Inr (row_meeting_id r)) rs
      = [Inr (JStr ''m1''), Inr (JStr ''m2'') :: js_error + js_value]"
    using e2 ids by (rule trans)
  have "\<exists>rs. handleWebSocketMessage ?D ?S = Normal (?S\<lparr>meeting_history := Rows rs\<rparr>) \<and>
     map (\<lambda>r. Inr (row_meeting_id r)) rs =
       [Inr (JStr ''m1''), Inr (JStr ''m2'') :: js_error + js_value]"
    using e1' e2' by (intro exI conjI)
  with type registry show ?thesis by (intro conjI)
qed

text \<open>
  The claim as written fails: with \<open>m3\<close> in the registry, a \<open>meetings_update\<close> carrying
  \<open>m1\<close> and \<open>m2\<close> leaves the registry holding \<open>m3\<close> alone.
\<close>

theorem meetings_update_counterexample:
  "map fst (activeMeetings (state_of (handleWebSocketMessage
      (meetings_update_event
         (JArr 12 [sample_meeting 1 ''m1'' ''Standup'', sample_meeting 2 ''m2'' ''Review'']))
      (state_of (addActiveMeeting (sample_meeting 3 ''m3'' ''Retro'') (page_loaded page0))))))
   = [JStr ''m3'']"
  by (simp add: handleWebSocketMessage_def updateMeetingHistory_def addActiveMeeting_def
      updateActiveMeetingsDisplay_def sample_defs)

text \<open>
  Claim C2, as the script has it. When \<open>JSON.parse\<close> throws on the payload, the
  \<open>onmessage\<close> handler throws that error: nothing is dispatched, the script logs
  nothing and no part of the state changes, so the events that follow run as they
  would have without the message.
\<close>

theorem unparsable_payload_throws:
  assumes "JSON_parse event_data = Inl e"
  shows "onmessage JSON_parse event_data st = Throw e st \<and>
         fire JSON_parse (SocketMessage s event_data) st = st \<and>
         run JSON_parse (SocketMessage s event_data # evs) st =
           (if readyState st s = Some OPEN then run JSON_parse evs st else None)"
  using assms by (simp add: onmessage_def)

theorem unparsable_payload_throws_witness:
  "onmessage (\<lambda>event_data. Inl SyntaxError) ''not json''
       (fire (\<lambda>event_data. Inl SyntaxError) (SocketOpen 0) (page_loaded page0))
     = Throw SyntaxError (fire (\<lambda>event_data. Inl SyntaxError) (SocketOpen 0) (page_loaded page0)) \<and>
   run (\<lambda>event_data. Inl SyntaxError) [SocketMessage 0 ''not json'', SocketClose 0]
       (fire (\<lambda>event_data. Inl SyntaxError) (SocketOpen 0) (page_loaded page0))
     = run (\<lambda>event_data. Inl SyntaxError) [SocketClose 0]
       (fire (\<lambda>event_data. Inl SyntaxError) (SocketOpen 0) (page_loaded page0))"
  using unparsable_payload_throws
    [of "\<lambda>event_data. Inl SyntaxError" "''not json''" SyntaxError
        "fire (\<lambda>event_data. Inl SyntaxError) (SocketOpen 0) (page_loaded page0)" 0 "[SocketClose 0]"]
  by (simp add: readyState_def onopen_def addLiveUpdate_def sample_defs)

text \<open>The claim as written fails: the handler does not return, it throws the SyntaxError.\<close>

theorem unparsable_payload_counterexample:
  "onmessage (\<lambda>event_data. Inl SyntaxError) ''not json'' (page_loaded page0) =
     Throw SyntaxError (page_loaded page0) \<and>
   \<not> returns (onmessage (\<lambda>event_data. Inl SyntaxError) ''not json'' (page_loaded page0))"
  by (simp add: onmessage_def)

subsection \<open>The connection and the event loop\<close>

lemma addLiveUpdate_connection [simp]: "connection (addLiveUpdate m t st) = connection st"
  by (simp add: connection_def addLiveUpdate_def Let_def)

lemma updateActiveMeetingsDisplay_connection [simp]:
  "connection (state_of (updateActiveMeetingsDisplay st)) = connection st"
  by (simp add: connection_def updateActiveMeetingsDisplay_def split: sum.splits)

lemma addActiveMeeting_connection [simp]:
  "connection (state_of (addActiveMeeting m st)) = connection st"
  using updateActiveMeetingsDisplay_connection
    [of "st\<lparr>activeMeetings := js_map_set k m (activeMeetings st)\<rparr>" for k]
  by (simp add: addActiveMeeting_def connection_def split: sum.splits)

lemma removeActiveMeeting_connection [simp]:
  "connection (state_of (removeActiveMeeting i st)) = connection st"
  using updateActiveMeetingsDisplay_connection
    [of "st\<lparr>activeMeetings := js_map_delete i (activeMeetings st)\<rparr>"]
  by (simp add: removeActiveMeeting_def connection_def)

lemma updateMeetingHistory_connection [simp]:
  "connection (state_of (updateMeetingHistory ms st)) = connection st"
  using updateMeetingHistory_cases [of ms st]
  by (auto simp: connection_def)

lemma loadMeetingHistory_connection [simp]:
  "connection (loadMeetingHistory st) = connection st"
  by (simp add: connection_def loadMeetingHistory_def)

lemma handleWebSocketMessage_connection [simp]:
  "connection (state_of (handleWebSocketMessage data st)) = connection st"
proof (cases "get_prop data ''type''")
  case (Inl e)
  then show ?thesis by (simp add: handleWebSocketMessage_def)
next
  case (Inr type)
  have started: "connection (state_of (case addActiveMeeting m st of
                    Throw e st1 \<Rightarrow> Throw e st1
                  | Normal st1 \<Rightarrow>
                      (case prop_string m ''title'' of
                         Inl e \<Rightarrow> Throw e st1
                       | Inr title \<Rightarrow> Normal (addLiveUpdate (msg title) ty st1)))) = connection st" for m msg ty
    using addActiveMeeting_connection [of m st]
    by (cases "addActiveMeeting m st") (auto split: sum.splits)
  have ended: "connection (state_of (case removeActiveMeeting i st of
                    Throw e st1 \<Rightarrow> Throw e st1
                  | Normal st1 \<Rightarrow>
                      (case get_prop data ''meeting'' of
                         Inl e \<Rightarrow> Throw e st1
                       | Inr meeting \<Rightarrow>
                           (case prop_string meeting ''title'' of
                              Inl e \<Rightarrow> Throw e st1
                            | Inr title \<Rightarrow>
                                Normal (loadMeetingHistory (addLiveUpdate (msg title) ty st1)))))) = connection st" for i msg ty
    using removeActiveMeeting_connection [of i st]
    by (cases "removeActiveMeeting i st") (auto split: sum.splits)
  have transcript: "connection (state_of (case v of
                    JStr s \<Rightarrow> Normal (addLiveUpdate (msg s) ty st)
                  | _ \<Rightarrow> Throw TypeError st)) = connection st" for v msg ty
    by (cases v) auto
  from Inr obtain m i tx d where props:
    "get_prop data ''meeting'' = Inr m" "get_prop data ''meeting_id'' = Inr i"
    "get_prop data ''text'' = Inr tx" "get_prop data ''data'' = Inr d"
    by (cases data) auto
  have update: "connection (state_of (case get_prop d ''meetings'' of
                    Inl e \<Rightarrow> Throw e st
                  | Inr meetings \<Rightarrow> updateMeetingHistory meetings st)) = connection st"
    by (cases "get_prop d ''meetings''") auto
  have unknown: "connection (st\<lparr>console := c\<rparr>) = connection st" for c
    by (simp add: connection_def)
  consider (c1) "type = JStr ''meeting_started''"
    | (c2) "type = JStr ''meeting_ended''"
    | (c3) "type = JStr ''transcript_update''"
    | (c4) "type = JStr ''meetings_update''"
    | (c5) "type = JStr ''pong''"
    | (c6) "type \<noteq> JStr ''meeting_started''" "type \<noteq> JStr ''meeting_ended''"
        "type \<noteq> JStr ''transcript_update''" "type \<noteq> JStr ''meetings_update''"
        "type \<noteq> JStr ''pong''"
    by blast
  then show ?thesis
  proof cases
    case c1
    with Inr props show ?thesis
      by (simp add: handleWebSocketMessage_def started)
  next
    case c2
    with Inr props show ?thesis
      by (simp add: handleWebSocketMessage_def ended)
  next
    case c3
    with Inr props show ?thesis
      by (simp add: handleWebSocketMessage_def transcript)
  next
    case c4
    with Inr props show ?thesis
      by (simp add: handleWebSocketMessage_def update)
  next
    case c5
    with Inr props show ?thesis
      by (simp add: handleWebSocketMessage_def)
  next
    case c6
    with Inr props show ?thesis
      by (simp add: handleWebSocketMessage_def unknown)
  qed
qed


lemma connection_fields:
  "connection a = connection b \<Longrightarrow>
     websocketConnection a = websocketConnection b \<and> sockets a = sockets b \<and>
     timeouts a = timeouts b \<and> intervals a = intervals b \<and> clock a = clock b \<and>
     sent a = sent b"
  by (simp add: connection_def)

lemma onmessage_connection [simp]:
  "connection (state_of (onmessage JSON_parse event_data st)) = connection st"
  by (simp add: onmessage_def split: sum.splits)

lemma loadMeetingHistory_resume_connection [simp]:
  "connection (loadMeetingHistory_resume response st) = connection st"
proof (cases response)
  case (Inl e)
  then show ?thesis by (simp add: loadMeetingHistory_resume_def connection_def)
next
  case (Inr meetings)
  with updateMeetingHistory_cases [of meetings st] show ?thesis
    by (auto simp: loadMeetingHistory_resume_def connection_def)
qed

lemma onopen_connection [simp]: "connection (onopen st) = connection st"
  by (simp add: onopen_def) (simp add: connection_def)

lemma onerror_connection [simp]: "connection (onerror error st) = connection st"
  by (simp add: onerror_def) (simp add: connection_def)

lemma onclose_fields [simp]:
  "sockets (onclose st) = sockets st"
  "timeouts (onclose st) = timeouts st @ [(clock st + 3000, ConnectWebSocket)]"
  "intervals (onclose st) = intervals st"
  "sent (onclose st) = sent st"
  "clock (onclose st) = clock st"
  "websocketConnection (onclose st) = websocketConnection st"
  by (simp_all add: onclose_def addLiveUpdate_def Let_def)

lemma heartbeat_fields [simp]:
  "sockets (heartbeat st) = sockets st"
  "timeouts (heartbeat st) = timeouts st"
  "intervals (heartbeat st) = intervals st"
  "clock (heartbeat st) = clock st"
  "websocketConnection (heartbeat st) = websocketConnection st"
  by (simp_all add: heartbeat_def split: option.splits)

lemma connectWebSocket_fields [simp]:
  "sockets (connectWebSocket st) = sockets st @ [CONNECTING]"
  "timeouts (connectWebSocket st) = timeouts st"
  "intervals (connectWebSocket st) = intervals st"
  "sent (connectWebSocket st) = sent st"
  "clock (connectWebSocket st) = clock st"
  by (simp_all add: connectWebSocket_def)

lemma count_list_update:
  "i < length xs \<Longrightarrow>
     length (filter P (xs[i := y])) + (if P (xs ! i) then 1 else 0) =
     length (filter P xs) + (if P y then 1 else 0)"
proof (induction xs arbitrary: i)
  case Nil
  then show ?case by simp
next
  case (Cons x xs)
  show ?case
  proof (cases i)
    case 0
    then show ?thesis by simp
  next
    case (Suc j)
    with Cons.prems have "j < length xs" by simp
    from Cons.IH [OF this] Suc show ?thesis by simp
  qed
qed

lemma live_sessions_update:
  "s < length (sockets st) \<Longrightarrow>
     live_sessions (st\<lparr>sockets := (sockets st)[s := r]\<rparr>) + (if sockets st ! s \<noteq> CLOSED then 1 else 0) =
     live_sessions st + (if r \<noteq> CLOSED then 1 else 0)"
  using count_list_update [of s "sockets st" "\<lambda>r. r \<noteq> CLOSED" r]
  by (simp add: live_sessions_def)

lemma live_sessions_cong: "sockets a = sockets b \<Longrightarrow> live_sessions a = live_sessions b"
  by (simp add: live_sessions_def)

lemma fire_sockets_timeouts:
  assumes "enabled ev st"
    and "live_sessions st + length (timeouts st) \<le> 1"
    and "intervals st = [(due, 30000, Heartbeat)]"
  shows "live_sessions (fire JSON_parse ev st) + length (timeouts (fire JSON_parse ev st)) \<le> 1"
proof (cases ev)
  case (SocketOpen s)
  with assms(1) have "s < length (sockets st)" "sockets st ! s = CONNECTING"
    by (auto simp: readyState_def split: if_splits)
  with live_sessions_update [of s st OPEN] assms(2) SocketOpen
  show ?thesis
    using connection_fields [OF onopen_connection [of "st\<lparr>sockets := (sockets st)[s := OPEN]\<rparr>"]]
    by (simp add: live_sessions_cong [of "onopen (st\<lparr>sockets := (sockets st)[s := OPEN]\<rparr>)" "st\<lparr>sockets := (sockets st)[s := OPEN]\<rparr>"])
next
  case (SocketMessage s event_data)
  with assms(2) connection_fields [OF onmessage_connection [of JSON_parse event_data st]]
  show ?thesis
    by (simp add: live_sessions_def)
next
  case (SocketClosing s)
  with assms(1) have "s < length (sockets st)" "sockets st ! s = OPEN"
    by (auto simp: readyState_def split: if_splits)
  with live_sessions_update [of s st CLOSING] assms(2) SocketClosing
  show ?thesis by simp
next
  case (SocketError s error)
  with assms(2) connection_fields [OF onerror_connection [of error st]]
  show ?thesis
    by (simp add: live_sessions_def)
next
  case (SocketClose s)
  with assms(1) have "s < length (sockets st)" "sockets st ! s \<noteq> CLOSED"
    by (auto simp: readyState_def split: if_splits)
  with live_sessions_update [of s st CLOSED]
  have "Suc (live_sessions (st\<lparr>sockets := (sockets st)[s := CLOSED]\<rparr>)) = live_sessions st"
    by simp
  with assms(2) have "live_sessions (st\<lparr>sockets := (sockets st)[s := CLOSED]\<rparr>) = 0"
    and "length (timeouts st) = 0"
    by linarith+
  with SocketClose show ?thesis
    by (simp add: live_sessions_cong [of "onclose (st\<lparr>sockets := (sockets st)[s := CLOSED]\<rparr>)" "st\<lparr>sockets := (sockets st)[s := CLOSED]\<rparr>"])
next
  case (TimeoutDue i)
  with assms(1) have i: "i < length (timeouts st)" by simp
  with assms(2) have "live_sessions st = 0" by simp
  with i assms(2) TimeoutDue show ?thesis
    by (cases "snd (timeouts st ! i)") (simp_all add: live_sessions_def)
next
  case (IntervalDue i)
  with assms(1) assms(3) have "i = 0" by simp
  with assms(2) assms(3) IntervalDue show ?thesis
    by (simp add: live_sessions_def)
next
  case (HistoryResponse response)
  with assms(2)
    connection_fields [OF loadMeetingHistory_resume_connection [of response "st\<lparr>fetches := tl (fetches st)\<rparr>"]]
  show ?thesis
    by (simp add: live_sessions_def)
next
  case (TimePasses d)
  with assms(2) show ?thesis by (simp add: live_sessions_def)
qed


lemma fire_intervals:
  assumes "enabled ev st" and "intervals st = [(due, 30000, Heartbeat)]"
  shows "intervals (fire JSON_parse ev st) =
           [(due + 30000 * int (ticks [ev]), 30000, Heartbeat)]"
proof (cases ev)
  case (SocketOpen s)
  with assms(2) connection_fields [OF onopen_connection [of "st\<lparr>sockets := (sockets st)[s := OPEN]\<rparr>"]]
  show ?thesis by (simp add: ticks_def)
next
  case (SocketMessage s event_data)
  with assms(2) connection_fields [OF onmessage_connection [of JSON_parse event_data st]]
  show ?thesis by (simp add: ticks_def)
next
  case (SocketClosing s)
  with assms(2) show ?thesis by (simp add: ticks_def)
next
  case (SocketError s error)
  with assms(2) connection_fields [OF onerror_connection [of error st]]
  show ?thesis by (simp add: ticks_def)
next
  case (SocketClose s)
  with assms(2) show ?thesis by (simp add: ticks_def)
next
  case (TimeoutDue i)
  with assms(2) show ?thesis
    by (cases "snd (timeouts st ! i)") (simp_all add: ticks_def)
next
  case (IntervalDue i)
  with assms(1) assms(2) have "i = 0" by simp
  with assms(2) IntervalDue show ?thesis
    by (simp add: ticks_def)
next
  case (HistoryResponse response)
  with assms(2)
    connection_fields [OF loadMeetingHistory_resume_connection [of response "st\<lparr>fetches := tl (fetches st)\<rparr>"]]
  show ?thesis by (simp add: ticks_def)
next
  case (TimePasses d)
  with assms(2) show ?thesis by (simp add: ticks_def)
qed

lemma ticks_Cons: "ticks (ev # evs) = ticks [ev] + ticks evs"
  by (simp add: ticks_def)

lemma run_invariant:
  assumes "run JSON_parse evs st = Some st'"
    and "live_sessions st + length (timeouts st) \<le> 1"
    and "intervals st = [(due, 30000, Heartbeat)]"
  shows "live_sessions st' + length (timeouts st') \<le> 1 \<and>
         intervals st' = [(due + 30000 * int (ticks evs), 30000, Heartbeat)]"
  using assms
proof (induction evs arbitrary: st due)
  case Nil
  then show ?case by (simp add: ticks_def)
next
  case (Cons ev evs)
  from Cons.prems(1) have en: "enabled ev st"
    and rest: "run JSON_parse evs (fire JSON_parse ev st) = Some st'"
    by (simp_all split: if_splits)
  note step1 = fire_sockets_timeouts [OF en Cons.prems(2) Cons.prems(3), of JSON_parse]
  note step2 = fire_intervals [OF en Cons.prems(3), of JSON_parse]
  from Cons.IH [OF rest step1 step2] show ?case
    by (simp add: ticks_Cons [of ev evs] algebra_simps)
qed

lemma page_loaded_invariant:
  "live_sessions (page_loaded page) + length (timeouts (page_loaded page)) \<le> 1"
  "intervals (page_loaded page) = [(clock page + 30000, 30000, Heartbeat)]"
  "sent (page_loaded page) = []"
  by (simp_all add: page_loaded_def onDOMContentLoaded_def checkPlatformConnections_def
      connectWebSocket_def loadMeetingHistory_def run_script_def live_sessions_def)

lemma reachable_invariant:
  assumes "run JSON_parse evs (page_loaded page) = Some st"
  shows "live_sessions st + length (timeouts st) \<le> 1"
    and "intervals st = [(clock page + 30000 * (1 + int (ticks evs)), 30000, Heartbeat)]"
  using run_invariant [OF assms page_loaded_invariant(1) page_loaded_invariant(2)]
  by (simp_all add: algebra_simps)


lemma readyState_cong: "sockets a = sockets b \<Longrightarrow> readyState a s = readyState b s"
  by (simp add: readyState_def)

lemma heartbeat_sent:
  "sent (heartbeat st) = sent st \<or>
   (\<exists>s. websocketConnection st = Some s \<and> readyState st s = Some OPEN \<and>
        sent (heartbeat st) = sent st @ [(s, ping (clock st))])"
  by (simp add: heartbeat_def split: option.splits)

lemma run_callback_sent:
  assumes "websocketConnection st1 = websocketConnection st" "sockets st1 = sockets st"
    "clock st1 = clock st" "sent st1 = sent st"
  shows "sent (run_callback cb st1) = sent st \<or>
   (\<exists>s. websocketConnection st = Some s \<and> readyState st s = Some OPEN \<and>
        sent (run_callback cb st1) = sent st @ [(s, ping (clock st))])"
proof (cases cb)
  case ConnectWebSocket
  with assms show ?thesis by simp
next
  case Heartbeat
  with assms heartbeat_sent [of st1] readyState_cong [OF assms(2)] show ?thesis
    by simp
qed

lemma fire_sent:
  "sent (fire JSON_parse ev st) = sent st \<or>
   (\<exists>s. websocketConnection st = Some s \<and> readyState st s = Some OPEN \<and>
        sent (fire JSON_parse ev st) = sent st @ [(s, ping (clock st))])"
proof (cases ev)
  case (SocketOpen s)
  with connection_fields [OF onopen_connection [of "st\<lparr>sockets := (sockets st)[s := OPEN]\<rparr>"]]
  show ?thesis by simp
next
  case (SocketMessage s event_data)
  with connection_fields [OF onmessage_connection [of JSON_parse event_data st]]
  show ?thesis by simp
next
  case (SocketClosing s)
  then show ?thesis by simp
next
  case (SocketError s error)
  with connection_fields [OF onerror_connection [of error st]]
  show ?thesis by simp
next
  case (SocketClose s)
  then show ?thesis by simp
next
  case (TimeoutDue i)
  with run_callback_sent
    [of "st\<lparr>timeouts := take i (timeouts st) @ drop (Suc i) (timeouts st)\<rparr>" st
        "snd (timeouts st ! i)"]
  show ?thesis by simp
next
  case (IntervalDue i)
  obtain due period cb where t: "intervals st ! i = (due, period, cb)"
    by (cases "intervals st ! i") auto
  with IntervalDue run_callback_sent
    [of "st\<lparr>intervals := (intervals st)[i := (due + period, period, cb)]\<rparr>" st cb]
  show ?thesis by simp
next
  case (HistoryResponse response)
  with connection_fields [OF loadMeetingHistory_resume_connection [of response "st\<lparr>fetches := tl (fetches st)\<rparr>"]]
  show ?thesis by simp
next
  case (TimePasses d)
  then show ?thesis by simp
qed

lemma run_sent:
  assumes "run JSON_parse evs st = Some st'"
    and "\<forall>f\<in>set (sent st). \<exists>t. snd f = ping t"
  shows "\<forall>f\<in>set (sent st'). \<exists>t. snd f = ping t"
  using assms
proof (induction evs arbitrary: st)
  case Nil
  then show ?case by simp
next
  case (Cons ev evs)
  from Cons.prems(1) have rest: "run JSON_parse evs (fire JSON_parse ev st) = Some st'"
    by (simp split: if_splits)
  have "\<forall>f\<in>set (sent (fire JSON_parse ev st)). \<exists>t. snd f = ping t"
  proof
    fix f
    assume f: "f \<in> set (sent (fire JSON_parse ev st))"
    from fire_sent [of JSON_parse ev st] show "\<exists>t. snd f = ping t"
    proof (elim disjE exE conjE)
      assume "sent (fire JSON_parse ev st) = sent st"
      with f Cons.prems(2) show ?thesis by simp
    next
      fix s
      assume "sent (fire JSON_parse ev st) = sent st @ [(s, ping (clock st))]"
      with f have "f \<in> set (sent st) \<or> snd f = ping (clock st)" by auto
      with Cons.prems(2) show ?thesis by blast
    qed
  qed
  from Cons.IH [OF rest this] show ?case .
qed

lemmas run_defs =
  readyState_def onopen_def onclose_def heartbeat_def addLiveUpdate_def Let_def sample_defs

text \<open>
  Claim C3, as the script has it. \<open>connectWebSocket\<close> has no guard: every call
  creates a session and makes it the current one, whatever the state of the sessions
  there are. The script calls it once when the page has loaded and then only from the
  timeout that a closing session sets, so in every run the sessions that are not
  closed and the scheduled reconnections are at most one together: at most one
  session is live, and a reconnection runs only when every session is closed.
\<close>

theorem single_session_by_call_discipline:
  assumes "run JSON_parse evs (page_loaded page) = Some st"
  shows "live_sessions st + length (timeouts st) \<le> 1 \<and>
         (\<forall>i. enabled (TimeoutDue i) st \<longrightarrow> live_sessions st = 0) \<and>
         (\<forall>st0. live_sessions (connectWebSocket st0) = Suc (live_sessions st0) \<and>
                websocketConnection (connectWebSocket st0) = Some (length (sockets st0)))"
proof -
  note inv = reachable_invariant(1) [OF assms]
  have "live_sessions st = 0" if "enabled (TimeoutDue i) st" for i
    using that inv by (cases "timeouts st") auto
  moreover have "live_sessions (connectWebSocket st0) = Suc (live_sessions st0) \<and>
      websocketConnection (connectWebSocket st0) = Some (length (sockets st0))" for st0
    by (simp add: live_sessions_def connectWebSocket_def)
  ultimately show ?thesis using inv by blast
qed

theorem single_session_by_call_discipline_witness:
  "\<exists>st. run (\<lambda>event_data. Inl SyntaxError)
          [SocketOpen 0, SocketClose 0, TimePasses 3000, TimeoutDue 0] (page_loaded page0) = Some st \<and>
        sockets st = [CLOSED, CONNECTING] \<and>
        live_sessions st + length (timeouts st) \<le> 1"
proof -
  obtain st where r: "run (\<lambda>event_data. Inl SyntaxError)
          [SocketOpen 0, SocketClose 0, TimePasses 3000, TimeoutDue 0] (page_loaded page0) = Some st"
    and s: "sockets st = [CLOSED, CONNECTING]"
    by (simp add: run_defs)
  from single_session_by_call_discipline [OF r] r s show ?thesis by blast
qed

text \<open>
  The claim as written fails: called while session 0 is open, \<open>connectWebSocket\<close> is
  not a no-op; it opens session 1, and two sessions are live.
\<close>

theorem connect_unguarded_counterexample:
  "readyState (fire (\<lambda>event_data. Inl SyntaxError) (SocketOpen 0) (page_loaded page0)) 0 = Some OPEN \<and>
   sockets (connectWebSocket
      (fire (\<lambda>event_data. Inl SyntaxError) (SocketOpen 0) (page_loaded page0))) = [OPEN, CONNECTING] \<and>
   live_sessions (connectWebSocket
      (fire (\<lambda>event_data. Inl SyntaxError) (SocketOpen 0) (page_loaded page0))) = 2"
  by (simp add: run_defs live_sessions_def)

text \<open>
  Claim C6. In every run the heartbeat is the one interval registered, with the
  period 30000 ms: after \<open>n\<close> ticks the next is due 30000 (n + 1) ms after the script
  ran, whatever messages and other events came in between. An event adds a frame to
  the frames sent only if the current session is open, and then it is the one frame
  \<open>{type: 'ping', timestamp: Date.now()}\<close> on that session; a tick with the current
  session open does send it; and every frame the run has sent is such a probe.
\<close>

theorem heartbeat_probe:
  assumes "run JSON_parse evs (page_loaded page) = Some st"
  shows "intervals st = [(clock page + 30000 * (1 + int (ticks evs)), 30000, Heartbeat)] \<and>
         (\<forall>ev. sent (fire JSON_parse ev st) = sent st \<or>
            (\<exists>s. websocketConnection st = Some s \<and> readyState st s = Some OPEN \<and>
                 sent (fire JSON_parse ev st) = sent st @ [(s, ping (clock st))])) \<and>
         (\<forall>s. websocketConnection st = Some s \<longrightarrow> readyState st s = Some OPEN \<longrightarrow>
            sent (fire JSON_parse (IntervalDue 0) st) = sent st @ [(s, ping (clock st))]) \<and>
         (\<forall>f\<in>set (sent st). \<exists>t. snd f = ping t)"
proof -
  note iv = reachable_invariant(2) [OF assms]
  have tick: "sent (fire JSON_parse (IntervalDue 0) st) = sent st @ [(s, ping (clock st))]"
    if "websocketConnection st = Some s" "readyState st s = Some OPEN" for s
    using that iv by (auto simp: heartbeat_def readyState_def split: if_splits)
  have "\<forall>f\<in>set (sent st). \<exists>t. snd f = ping t"
    by (rule run_sent [OF assms]) (simp add: page_loaded_invariant(3))
  with iv tick fire_sent [of JSON_parse _ st] show ?thesis by blast
qed

theorem heartbeat_probe_witness:
  "\<exists>st. run (\<lambda>event_data. Inl SyntaxError)
          [SocketOpen 0, TimePasses 30000, IntervalDue 0] (page_loaded page0) = Some st \<and>
        sent st = [(0, [(''type'', JStr ''ping''), (''timestamp'', JNum 31000)])] \<and>
        intervals st = [(61000, 30000, Heartbeat)] \<and>
        (\<forall>f\<in>set (sent st). \<exists>t. snd f = ping t)"
proof -
  obtain st where r: "run (\<lambda>event_data. Inl SyntaxError)
          [SocketOpen 0, TimePasses 30000, IntervalDue 0] (page_loaded page0) = Some st"
    and s: "sent st = [(0, [(''type'', JStr ''ping''), (''timestamp'', JNum 31000)])]"
      "intervals st = [(61000, 30000, Heartbeat)]"
    by (simp add: run_defs ping_def)
  from heartbeat_probe [OF r] r s show ?thesis by blast
qed

text \<open>
  Claim C7. When a session closes, in any run, the pending timeouts become exactly
  one: \<open>connectWebSocket\<close>, due 3000 ms after the closure, whatever closures came
  before. It can run once 3000 ms have passed and not earlier, and running it opens
  the next session.
\<close>

theorem reconnect_after_fixed_delay:
  assumes "run JSON_parse evs (page_loaded page) = Some st"
    and "enabled (SocketClose s) st"
  shows "timeouts (fire JSON_parse (SocketClose s) st) = [(clock st + 3000, ConnectWebSocket)] \<and>
         (\<forall>d. enabled (TimeoutDue 0) (fire JSON_parse (TimePasses d) (fire JSON_parse (SocketClose s) st))
               = (3000 \<le> d)) \<and>
         sockets (fire JSON_parse (TimeoutDue 0) (fire JSON_parse (SocketClose s) st))
           = (sockets st)[s := CLOSED] @ [CONNECTING]"
proof -
  from assms(2) have s: "s < length (sockets st)" "sockets st ! s \<noteq> CLOSED"
    by (auto simp: readyState_def split: if_splits)
  with live_sessions_update [of s st CLOSED] have "1 \<le> live_sessions st" by simp
  with reachable_invariant(1) [OF assms(1)] have "length (timeouts st) = 0" by linarith
  then have none: "timeouts st = []" by simp
  then show ?thesis by simp
qed

theorem reconnect_after_fixed_delay_witness:
  "\<exists>st. run (\<lambda>event_data. Inl SyntaxError)
          [SocketClose 0, TimePasses 3000, TimeoutDue 0] (page_loaded page0) = Some st \<and>
        enabled (SocketClose 1) st \<and> clock st = 4000 \<and>
        timeouts (fire (\<lambda>event_data. Inl SyntaxError) (SocketClose 1) st) = [(7000, ConnectWebSocket)]"
proof -
  obtain st where r: "run (\<lambda>event_data. Inl SyntaxError)
          [SocketClose 0, TimePasses 3000, TimeoutDue 0] (page_loaded page0) = Some st"
    and s: "enabled (SocketClose 1) st" "clock st = 4000"
    by (simp add: run_defs)
  from reconnect_after_fixed_delay [OF r s(1)] r s show ?thesis by simp
qed

end
